theory Spec2Isabelle
  imports Complex_Main "HOL-Library.Log_Nat"
begin

section \<open>Octahedral direction codec (oct\_test.py, simulate\_octa.py)\<close>

text \<open>
  The two scripts map a 3D direction to a point of the unit square and back.
  The code is embedded twice.

  \<^item> The exact model (\<open>encode\<close>, \<open>decode\<close>, \<open>decode_simulate_octa\<close>) reads every
    Python float as a \<^typ>\<open>real\<close>: it is the arithmetic the code writes down, carried out
    with no rounding, overflow or underflow.
  \<^item> The double-precision model (\<open>encode_double\<close>, \<open>decode_double\<close>) is the code as CPython
    runs it: arguments are Python ints or floats, a float is an IEEE 754 binary64 value and
    every operation rounds to nearest, ties to even, overflows to an infinity and underflows
    to zero.

  What Python raises is a value of the result type: a true division by zero raises
  ZeroDivisionError, \<open>math.sqrt\<close> of a negative number raises ValueError, the conversion
  of an int too large for a float raises OverflowError.
\<close>

subsection \<open>Python's fallible arithmetic, exact model\<close>

datatype error = ZeroDivisionError | ValueError | OverflowError

type_synonym 'a result = "error + 'a"

definition bind :: "'a result \<Rightarrow> ('a \<Rightarrow> 'b result) \<Rightarrow> 'b result" where
  "bind m f = (case m of Inl e \<Rightarrow> Inl e | Inr a \<Rightarrow> f a)"

definition truediv :: "real \<Rightarrow> real \<Rightarrow> real result" where
  \<comment> \<open>Python's \<open>a / b\<close> on floats\<close>
  "truediv a b = (if b = 0 then Inl ZeroDivisionError else Inr (a / b))"

definition math_sqrt :: "real \<Rightarrow> real result" where
  \<comment> \<open>Python's \<open>math.sqrt\<close>\<close>
  "math_sqrt a = (if a < 0 then Inl ValueError else Inr (sqrt a))"

subsection \<open>encode (oct\_test.py, lines 3 to 22), exact model\<close>

definition encode_normalize :: "real \<Rightarrow> real \<Rightarrow> real \<Rightarrow> (real \<times> real \<times> real) result" where
  \<comment> \<open>lines 4 to 7: the values of \<open>dirx, diry, dirz\<close> after the three divisions\<close>
  "encode_normalize dirx diry dirz =
     bind (math_sqrt (dirx * dirx + diry * diry + dirz * dirz)) (\<lambda>length.
     bind (truediv dirx length) (\<lambda>dirx.
     bind (truediv diry length) (\<lambda>diry.
     bind (truediv dirz length) (\<lambda>dirz.
     Inr (dirx, diry, dirz)))))"

definition encode_denom :: "real \<Rightarrow> real \<Rightarrow> real \<Rightarrow> real" where
  \<comment> \<open>line 11\<close>
  "encode_denom octX octY octZ = max (\<bar>octX\<bar> + \<bar>octY\<bar> + \<bar>octZ\<bar>) (1 / 100000)"

definition encode_oct :: "real \<Rightarrow> real \<Rightarrow> real \<Rightarrow> (real \<times> real \<times> real) result" where
  \<comment> \<open>lines 4 to 14: the values of \<open>octX, octY, octZ\<close> after the division by \<open>denom\<close>\<close>
  "encode_oct dirx diry dirz =
     bind (encode_normalize dirx diry dirz) (\<lambda>(dirx, diry, dirz).
     let octX = dirx;
         octY = dirz;
         octZ = diry;
         denom = encode_denom octX octY octZ
     in
     bind (truediv octX denom) (\<lambda>octX.
     bind (truediv octY denom) (\<lambda>octY.
     bind (truediv octZ denom) (\<lambda>octZ.
     Inr (octX, octY, octZ)))))"

definition encode_fold :: "real \<Rightarrow> real \<Rightarrow> real \<Rightarrow> real \<times> real" where
  \<comment> \<open>lines 15 to 21: the values of \<open>uvx, uvy\<close> before the final scaling\<close>
  "encode_fold octX octY octZ =
     (let uvx = octX;
          uvy = octY
      in
      if octZ < 0 then
        let signDirX = (if octX \<ge> 0 then 1 else - 1);
            signDirY = (if octY \<ge> 0 then 1 else - 1);
            uvx = (1 - \<bar>octY\<bar>) * signDirX;
            uvy = (1 - \<bar>octX\<bar>) * signDirY
        in (uvx, uvy)
      else (uvx, uvy))"

definition encode :: "real \<Rightarrow> real \<Rightarrow> real \<Rightarrow> (real \<times> real) result" where
  "encode dirx diry dirz =
     bind (encode_oct dirx diry dirz) (\<lambda>(octX, octY, octZ).
     case encode_fold octX octY octZ of (uvx, uvy) \<Rightarrow>
     Inr (uvx * 0.5 + 0.5, uvy * 0.5 + 0.5))"

subsection \<open>decode (oct\_test.py, lines 24 to 41), exact model\<close>

definition decode_nz :: "real \<Rightarrow> real \<Rightarrow> real" where
  \<comment> \<open>lines 25, 26 and 29: the value of \<open>n_z\<close>, whose sign selects the unfold branch\<close>
  "decode_nz u v =
     (let f_x = u * 2 - 1;
          f_y = v * 2 - 1
      in 1 - \<bar>f_x\<bar> - \<bar>f_y\<bar>)"

definition decode_dir :: "real \<Rightarrow> real \<Rightarrow> real \<times> real \<times> real" where
  \<comment> \<open>lines 25 to 39: the values of \<open>dirx, diry, dirz\<close> before the normalization\<close>
  "decode_dir u v =
     (let f_x = u * 2 - 1;
          f_y = v * 2 - 1;
          n_x = f_x;
          n_y = f_y;
          n_z = decode_nz u v;
          (n_x, n_y) =
            (if n_z < 0 then
               let signDirX = (if n_x \<ge> 0 then 1 else - 1);
                   signDirY = (if n_y \<ge> 0 then 1 else - 1);
                   tmp_x = (1 - \<bar>n_y\<bar>) * signDirX;
                   tmp_y = (1 - \<bar>n_x\<bar>) * signDirY
               in (tmp_x, tmp_y)
             else (n_x, n_y));
          dirx = n_x;
          diry = n_z;
          dirz = n_y
      in (dirx, diry, dirz))"

definition decode :: "real \<Rightarrow> real \<Rightarrow> (real \<times> real \<times> real) result" where
  "decode u v =
     (case decode_dir u v of (dirx, diry, dirz) \<Rightarrow>
      bind (math_sqrt (dirx * dirx + diry * diry + dirz * dirz)) (\<lambda>length.
      bind (truediv dirx length) (\<lambda>x.
      bind (truediv diry length) (\<lambda>y.
      bind (truediv dirz length) (\<lambda>z.
      Inr (x, y, z))))))"

subsection \<open>decode (simulate\_octa.py, lines 32 to 49), exact model\<close>

definition decode_simulate_octa :: "real \<Rightarrow> real \<Rightarrow> (real \<times> real \<times> real) result" where
  "decode_simulate_octa u v =
     (let f_x = u * 2 - 1;
          f_y = v * 2 - 1;
          n_x = f_x;
          n_y = f_y;
          n_z = 1 - \<bar>f_x\<bar> - \<bar>f_y\<bar>;
          (n_x, n_y) =
            (if n_z < 0 then
               let signDirX = (if n_x \<ge> 0 then 1 else - 1);
                   signDirY = (if n_y \<ge> 0 then 1 else - 1);
                   tmp_x = (1 - \<bar>n_y\<bar>) * signDirX;
                   tmp_y = (1 - \<bar>n_x\<bar>) * signDirY
               in (tmp_x, tmp_y)
             else (n_x, n_y));
          dirx = n_x;
          diry = n_z;
          dirz = n_y
      in
      bind (math_sqrt (dirx * dirx + diry * diry + dirz * dirz)) (\<lambda>length.
      bind (truediv dirx length) (\<lambda>x.
      bind (truediv diry length) (\<lambda>y.
      bind (truediv dirz length) (\<lambda>z.
      Inr (x, y, z))))))"

section \<open>The double-precision model\<close>

subsection \<open>Binary64 values and rounding\<close>

text \<open>
  A float is a finite real, an infinity or NaN.  The two zeros are one value: Python's
  \<open>==\<close>, \<open><\<close> and \<open>>=\<close> do not tell them apart, and a division by either raises.
\<close>

datatype double = Finite real | PInf | NInf | NaN

definition ilog2 :: "real \<Rightarrow> int" where
  \<comment> \<open>for \<open>a > 0\<close> the integer \<open>e\<close> with \<open>2^e \<le> a < 2^(e+1)\<close> (lemma \<open>ilog2_bounds\<close>)\<close>
  "ilog2 a = (if 1 \<le> a then bitlen \<lfloor>a\<rfloor> - 1 else - bitlen (\<lceil>1 / a\<rceil> - 1))"

definition pow2 :: "int \<Rightarrow> real" where
  \<comment> \<open>2 to an integer power\<close>
  "pow2 k = (if 0 \<le> k then 2 ^ nat k else 1 / 2 ^ nat (- k))"

definition round_half_even :: "real \<Rightarrow> int" where
  \<comment> \<open>the nearest integer, the even one of two equally near\<close>
  "round_half_even n =
     (let f = \<lfloor>n\<rfloor>; d = n - of_int f
      in if d < 1 / 2 then f else if 1 / 2 < d then f + 1 else if even f then f else f + 1)"

definition rnd :: "real \<Rightarrow> double" where
  \<comment> \<open>binary64 rounding: 53 significant bits, exponents from -1074, overflow at \<open>2^1024\<close>\<close>
  "rnd x =
     (if x = 0 then Finite 0
      else
        let a = \<bar>x\<bar>;
            q = max (ilog2 a - 52) (- 1074);
            r = of_int (round_half_even (a / pow2 q)) * pow2 q
        in if 2 ^ 1024 \<le> r then (if 0 < x then PInf else NInf)
           else Finite (if 0 < x then r else - r))"

subsection \<open>Python's operations on floats and numbers\<close>

definition fneg :: "double \<Rightarrow> double" where
  "fneg a = (case a of Finite x \<Rightarrow> Finite (- x) | PInf \<Rightarrow> NInf | NInf \<Rightarrow> PInf | NaN \<Rightarrow> NaN)"

definition fabs :: "double \<Rightarrow> double" where
  \<comment> \<open>Python's \<open>abs\<close> on a float\<close>
  "fabs a = (case a of Finite x \<Rightarrow> Finite \<bar>x\<bar> | PInf \<Rightarrow> PInf | NInf \<Rightarrow> PInf | NaN \<Rightarrow> NaN)"

definition fadd :: "double \<Rightarrow> double \<Rightarrow> double" where
  \<comment> \<open>Python's \<open>a + b\<close> on floats\<close>
  "fadd a b =
     (case (a, b) of
        (NaN, _) \<Rightarrow> NaN
      | (_, NaN) \<Rightarrow> NaN
      | (Finite x, Finite y) \<Rightarrow> rnd (x + y)
      | (PInf, NInf) \<Rightarrow> NaN
      | (NInf, PInf) \<Rightarrow> NaN
      | (PInf, _) \<Rightarrow> PInf
      | (NInf, _) \<Rightarrow> NInf
      | (_, PInf) \<Rightarrow> PInf
      | (_, NInf) \<Rightarrow> NInf)"

definition fsub :: "double \<Rightarrow> double \<Rightarrow> double" where
  \<comment> \<open>Python's \<open>a - b\<close> on floats\<close>
  "fsub a b = fadd a (fneg b)"

definition fmul :: "double \<Rightarrow> double \<Rightarrow> double" where
  \<comment> \<open>Python's \<open>a * b\<close> on floats\<close>
  "fmul a b =
     (case (a, b) of
        (NaN, _) \<Rightarrow> NaN
      | (_, NaN) \<Rightarrow> NaN
      | (Finite x, Finite y) \<Rightarrow> rnd (x * y)
      | (Finite x, PInf) \<Rightarrow> (if x = 0 then NaN else if 0 < x then PInf else NInf)
      | (Finite x, NInf) \<Rightarrow> (if x = 0 then NaN else if 0 < x then NInf else PInf)
      | (PInf, Finite y) \<Rightarrow> (if y = 0 then NaN else if 0 < y then PInf else NInf)
      | (NInf, Finite y) \<Rightarrow> (if y = 0 then NaN else if 0 < y then NInf else PInf)
      | (PInf, PInf) \<Rightarrow> PInf
      | (NInf, NInf) \<Rightarrow> PInf
      | (PInf, NInf) \<Rightarrow> NInf
      | (NInf, PInf) \<Rightarrow> NInf)"

definition fdiv :: "double \<Rightarrow> double \<Rightarrow> double result" where
  \<comment> \<open>Python's \<open>a / b\<close> on floats: a zero divisor raises, whatever the dividend\<close>
  "fdiv a b =
     (if b = Finite 0 then Inl ZeroDivisionError
      else Inr
       (case (a, b) of
          (NaN, _) \<Rightarrow> NaN
        | (_, NaN) \<Rightarrow> NaN
        | (Finite x, Finite y) \<Rightarrow> rnd (x / y)
        | (Finite x, _) \<Rightarrow> Finite 0
        | (PInf, Finite y) \<Rightarrow> (if 0 < y then PInf else NInf)
        | (NInf, Finite y) \<Rightarrow> (if 0 < y then NInf else PInf)
        | (_, _) \<Rightarrow> NaN))"

definition fsqrt :: "double \<Rightarrow> double result" where
  \<comment> \<open>Python's \<open>math.sqrt\<close> on a float\<close>
  "fsqrt a =
     (case a of
        NaN \<Rightarrow> Inr NaN
      | PInf \<Rightarrow> Inr PInf
      | NInf \<Rightarrow> Inl ValueError
      | Finite x \<Rightarrow> (if x < 0 then Inl ValueError else Inr (rnd (sqrt x))))"

definition flt :: "double \<Rightarrow> double \<Rightarrow> bool" where
  \<comment> \<open>Python's \<open>a < b\<close> on floats: false when either side is NaN\<close>
  "flt a b =
     (case (a, b) of
        (NaN, _) \<Rightarrow> False
      | (_, NaN) \<Rightarrow> False
      | (Finite x, Finite y) \<Rightarrow> x < y
      | (_, NInf) \<Rightarrow> False
      | (PInf, _) \<Rightarrow> False
      | (NInf, _) \<Rightarrow> True
      | (_, PInf) \<Rightarrow> True)"

definition fge :: "double \<Rightarrow> double \<Rightarrow> bool" where
  \<comment> \<open>Python's \<open>a >= b\<close> on floats: false when either side is NaN\<close>
  "fge a b =
     (case (a, b) of
        (NaN, _) \<Rightarrow> False
      | (_, NaN) \<Rightarrow> False
      | (Finite x, Finite y) \<Rightarrow> y \<le> x
      | (_, NInf) \<Rightarrow> True
      | (PInf, _) \<Rightarrow> True
      | (NInf, _) \<Rightarrow> False
      | (_, PInf) \<Rightarrow> False)"

definition py_max :: "double \<Rightarrow> double \<Rightarrow> double" where
  \<comment> \<open>Python's \<open>max(a, b)\<close>: the first argument unless the second is greater\<close>
  "py_max a b = (if flt a b then b else a)"

datatype pyval = PyInt int | PyFloat double

definition as_float :: "pyval \<Rightarrow> double result" where
  \<comment> \<open>the conversion Python applies to an int operand next to a float\<close>
  "as_float a =
     (case a of
        PyFloat d \<Rightarrow> Inr d
      | PyInt n \<Rightarrow> (case rnd (of_int n) of Finite r \<Rightarrow> Inr (Finite r) | _ \<Rightarrow> Inl OverflowError))"

definition py_mul :: "pyval \<Rightarrow> pyval \<Rightarrow> pyval result" where
  "py_mul a b =
     (case (a, b) of
        (PyInt m, PyInt n) \<Rightarrow> Inr (PyInt (m * n))
      | _ \<Rightarrow> bind (as_float a) (\<lambda>x. bind (as_float b) (\<lambda>y. Inr (PyFloat (fmul x y)))))"

definition py_add :: "pyval \<Rightarrow> pyval \<Rightarrow> pyval result" where
  "py_add a b =
     (case (a, b) of
        (PyInt m, PyInt n) \<Rightarrow> Inr (PyInt (m + n))
      | _ \<Rightarrow> bind (as_float a) (\<lambda>x. bind (as_float b) (\<lambda>y. Inr (PyFloat (fadd x y)))))"

definition c_1e_5 :: double where
  \<comment> \<open>the literal \<open>1e-5\<close>\<close>
  "c_1e_5 = rnd (1 / 100000)"

subsection \<open>encode (oct\_test.py, lines 3 to 22), double-precision model\<close>

definition encode_normalize_double :: "pyval \<Rightarrow> pyval \<Rightarrow> pyval \<Rightarrow> (double \<times> double \<times> double) result" where
  \<comment> \<open>lines 4 to 7\<close>
  "encode_normalize_double dirx diry dirz =
     bind (py_mul dirx dirx) (\<lambda>xx.
     bind (py_mul diry diry) (\<lambda>yy.
     bind (py_add xx yy) (\<lambda>xxyy.
     bind (py_mul dirz dirz) (\<lambda>zz.
     bind (py_add xxyy zz) (\<lambda>s.
     bind (bind (as_float s) fsqrt) (\<lambda>length.
     bind (bind (as_float dirx) (\<lambda>d. fdiv d length)) (\<lambda>dirx.
     bind (bind (as_float diry) (\<lambda>d. fdiv d length)) (\<lambda>diry.
     bind (bind (as_float dirz) (\<lambda>d. fdiv d length)) (\<lambda>dirz.
     Inr (dirx, diry, dirz))))))))))"

definition encode_denom_double :: "double \<Rightarrow> double \<Rightarrow> double \<Rightarrow> double" where
  \<comment> \<open>line 11\<close>
  "encode_denom_double octX octY octZ =
     py_max (fadd (fadd (fabs octX) (fabs octY)) (fabs octZ)) c_1e_5"

definition encode_oct_double :: "pyval \<Rightarrow> pyval \<Rightarrow> pyval \<Rightarrow> (double \<times> double \<times> double) result" where
  \<comment> \<open>lines 4 to 14\<close>
  "encode_oct_double dirx diry dirz =
     bind (encode_normalize_double dirx diry dirz) (\<lambda>(dirx, diry, dirz).
     let octX = dirx;
         octY = dirz;
         octZ = diry;
         denom = encode_denom_double octX octY octZ
     in
     bind (fdiv octX denom) (\<lambda>octX.
     bind (fdiv octY denom) (\<lambda>octY.
     bind (fdiv octZ denom) (\<lambda>octZ.
     Inr (octX, octY, octZ)))))"

definition encode_fold_double :: "double \<Rightarrow> double \<Rightarrow> double \<Rightarrow> double \<times> double" where
  \<comment> \<open>lines 15 to 21\<close>
  "encode_fold_double octX octY octZ =
     (let uvx = octX;
          uvy = octY
      in
      if flt octZ (Finite 0) then
        let signDirX = (if fge octX (Finite 0) then Finite 1 else Finite (- 1));
            signDirY = (if fge octY (Finite 0) then Finite 1 else Finite (- 1));
            uvx = fmul (fsub (Finite 1) (fabs octY)) signDirX;
            uvy = fmul (fsub (Finite 1) (fabs octX)) signDirY
        in (uvx, uvy)
      else (uvx, uvy))"

definition encode_double :: "pyval \<Rightarrow> pyval \<Rightarrow> pyval \<Rightarrow> (double \<times> double) result" where
  "encode_double dirx diry dirz =
     bind (encode_oct_double dirx diry dirz) (\<lambda>(octX, octY, octZ).
     case encode_fold_double octX octY octZ of (uvx, uvy) \<Rightarrow>
     Inr (fadd (fmul uvx (Finite 0.5)) (Finite 0.5), fadd (fmul uvy (Finite 0.5)) (Finite 0.5)))"

subsection \<open>decode (oct\_test.py, lines 24 to 41), double-precision model\<close>




section \<open>Norms used to state the properties\<close>

definition l2 :: "real \<Rightarrow> real \<Rightarrow> real \<Rightarrow> real" where
  \<comment> \<open>Euclidean length of a direction\<close>
  "l2 x y z = sqrt (x * x + y * y + z * z)"

definition l1 :: "real \<Rightarrow> real \<Rightarrow> real \<Rightarrow> real" where
  \<comment> \<open>sum of the absolute values of the components\<close>
  "l1 x y z = \<bar>x\<bar> + \<bar>y\<bar> + \<bar>z\<bar>"

section \<open>Properties\<close>

subsection \<open>The result monad\<close>

lemma bind_Inr: "bind (Inr a) f = f a"
  by (simp add: bind_def)

lemma bind_Inl: "bind (Inl e) f = Inl e"
  by (simp add: bind_def)

lemma truediv_nonzero: "b \<noteq> 0 \<Longrightarrow> truediv a b = Inr (a / b)"
  by (simp add: truediv_def)

lemma math_sqrt_nonneg: "0 \<le> a \<Longrightarrow> math_sqrt a = Inr (sqrt a)"
  by (simp add: math_sqrt_def)

subsection \<open>Norms, normalization and the fold\<close>

lemma sumsq_pos: "(x, y, z) \<noteq> (0, 0, 0) \<Longrightarrow> 0 < x * x + y * y + z * (z::real)"
proof -
  assume nz: "(x, y, z) \<noteq> (0, 0, 0)"
  have "0 \<le> x * x" "0 \<le> y * y" "0 \<le> z * z" by simp_all
  moreover have "x * x \<noteq> 0 \<or> y * y \<noteq> 0 \<or> z * z \<noteq> 0" using nz by simp
  ultimately show ?thesis by linarith
qed

lemma l2_pos: "(x, y, z) \<noteq> (0, 0, 0) \<Longrightarrow> 0 < l2 x y z"
  unfolding l2_def using sumsq_pos by simp

lemma l1_pos: "(x, y, z) \<noteq> (0, 0, 0) \<Longrightarrow> 0 < l1 x y z"
  unfolding l1_def by auto

lemma l2_le_l1: "l2 x y z \<le> l1 x y z"
proof -
  have "0 \<le> \<bar>x\<bar> * \<bar>y\<bar>" "0 \<le> \<bar>x\<bar> * \<bar>z\<bar>" "0 \<le> \<bar>y\<bar> * \<bar>z\<bar>" by simp_all
  then have "x * x + y * y + z * z \<le> (l1 x y z)\<^sup>2"
    unfolding l1_def power2_eq_square by (simp add: algebra_simps abs_mult_self_eq) 
  moreover have "0 \<le> l1 x y z" unfolding l1_def by simp
  ultimately show ?thesis unfolding l2_def by (rule real_le_lsqrt[rotated -1])
qed

lemma encode_normalize_nonzero:
  assumes "(x, y, z) \<noteq> (0, 0, 0)"
  shows "encode_normalize x y z = Inr (x / l2 x y z, y / l2 x y z, z / l2 x y z)"
proof -
  have "0 < x * x + y * y + z * z" using assms by (rule sumsq_pos)
  then have "math_sqrt (x * x + y * y + z * z) = Inr (l2 x y z)"
    by (simp add: math_sqrt_def l2_def)
  moreover have "l2 x y z \<noteq> 0" using l2_pos[OF assms] by simp
  ultimately show ?thesis
    by (simp add: encode_normalize_def bind_Inr truediv_nonzero)
qed


lemma encode_denom_l1:
  assumes "(x, y, z) \<noteq> (0, 0, 0)"
  shows "encode_denom (x / l2 x y z) (z / l2 x y z) (y / l2 x y z) = l1 x y z / l2 x y z"
    and "1 \<le> l1 x y z / l2 x y z"
proof -
  have pos: "0 < l2 x y z" using assms by (rule l2_pos)
  have sum: "\<bar>x / l2 x y z\<bar> + \<bar>z / l2 x y z\<bar> + \<bar>y / l2 x y z\<bar> = l1 x y z / l2 x y z"
    using pos by (simp add: l1_def add_divide_distrib)
  show ge: "1 \<le> l1 x y z / l2 x y z"
    using pos l2_le_l1[of x y z] by simp
  show "encode_denom (x / l2 x y z) (z / l2 x y z) (y / l2 x y z) = l1 x y z / l2 x y z"
    unfolding encode_denom_def sum using ge by simp
qed

lemma encode_oct_nonzero:
  assumes "(x, y, z) \<noteq> (0, 0, 0)"
  shows "encode_oct x y z = Inr (x / l1 x y z, z / l1 x y z, y / l1 x y z)"
proof -
  have p2: "l2 x y z \<noteq> 0" using l2_pos[OF assms] by simp
  have p1: "l1 x y z \<noteq> 0" using l1_pos[OF assms] by simp
  have d: "l1 x y z / l2 x y z \<noteq> 0" using p1 p2 by simp
  have q: "truediv (a / l2 x y z) (l1 x y z / l2 x y z) = Inr (a / l1 x y z)" for a
    unfolding truediv_nonzero[OF d] using p1 p2 by simp
  show ?thesis
    unfolding encode_oct_def encode_normalize_nonzero[OF assms] bind_Inr Let_def prod.case
      encode_denom_l1(1)[OF assms] q ..
qed

lemma l1_unit:
  assumes "(x, y, z) \<noteq> (0, 0, 0)"
  shows "\<bar>x / l1 x y z\<bar> + \<bar>z / l1 x y z\<bar> + \<bar>y / l1 x y z\<bar> = 1"
proof -
  have p1: "0 < l1 x y z" using assms by (rule l1_pos)
  have e: "\<bar>x\<bar> + \<bar>z\<bar> + \<bar>y\<bar> = l1 x y z" by (simp add: l1_def)
  have "\<bar>x / l1 x y z\<bar> + \<bar>z / l1 x y z\<bar> + \<bar>y / l1 x y z\<bar>
        = \<bar>x\<bar> / l1 x y z + \<bar>z\<bar> / l1 x y z + \<bar>y\<bar> / l1 x y z"
    using p1 by simp
  also have "\<dots> = (\<bar>x\<bar> + \<bar>z\<bar> + \<bar>y\<bar>) / l1 x y z"
    by (simp only: add_divide_distrib)
  also have "\<dots> = 1"
    unfolding e using p1 by simp
  finally show ?thesis .
qed




lemma decode_dir_nonzero: "decode_dir u v \<noteq> (0, 0, 0)"
  by (auto simp: decode_dir_def decode_nz_def Let_def)

lemma decode_value:
  assumes "decode_dir u v = (a, b, c)"
  shows "decode u v = Inr (a / l2 a b c, b / l2 a b c, c / l2 a b c)"
proof -
  have nz: "(a, b, c) \<noteq> (0, 0, 0)" using decode_dir_nonzero[of u v] assms by simp
  then have "0 < a * a + b * b + c * c" by (rule sumsq_pos)
  then have s: "math_sqrt (a * a + b * b + c * c) = Inr (l2 a b c)"
    by (simp add: math_sqrt_def l2_def)
  have "l2 a b c \<noteq> 0" using l2_pos[OF nz] by simp
  then show ?thesis
    by (simp add: decode_def assms s bind_Inr truediv_nonzero)
qed

lemma l2_scale:
  assumes "0 < s"
  shows "l2 (x / s) (y / s) (z / s) = l2 x y z / s"
proof -
  have "(x / s) * (x / s) + (y / s) * (y / s) + (z / s) * (z / s) = (x * x + y * y + z * z) / (s * s)"
    by (simp add: add_divide_distrib)
  then have "l2 (x / s) (y / s) (z / s) = sqrt ((x * x + y * y + z * z) / (s * s))"
    by (simp add: l2_def)
  also have "\<dots> = sqrt (x * x + y * y + z * z) / sqrt (s * s)"
    by (rule real_sqrt_divide)
  also have "sqrt (s * s) = s" using assms by simp
  finally show ?thesis by (simp add: l2_def)
qed



subsection \<open>Binary64 rounding\<close>

lemma pow2_powi: "pow2 k = 2 powi k"
  by (simp add: pow2_def power_int_def inverse_eq_divide power_one_over)

lemma pow2_pos: "0 < pow2 k"
  by (simp add: pow2_def)

lemma pow2_mono: "j \<le> k \<Longrightarrow> pow2 j \<le> pow2 k"
  unfolding pow2_powi by (rule power_int_increasing) simp_all

lemma pow2_Suc: "pow2 (k + 1) = 2 * pow2 k"
  unfolding pow2_powi by (simp add: power_int_add)

lemma ilog2_bounds:
  assumes "0 < a"
  shows "pow2 (ilog2 a) \<le> a \<and> a < pow2 (ilog2 a + 1)"
proof (cases "1 \<le> a")
  case True
  define n where "n = \<lfloor>a\<rfloor>"
  have n1: "1 \<le> n" unfolding n_def using True by simp
  then have npos: "0 < n" by simp
  have k1: "1 \<le> bitlen n" using npos by (simp add: bitlen_alt_def)
  have b: "2 ^ nat (bitlen n - 1) \<le> n" "n < 2 ^ nat (bitlen n)"
    using bitlen_bounds[OF npos] by simp_all
  have e: "ilog2 a = bitlen n - 1" using True by (simp add: ilog2_def n_def)
  have "pow2 (bitlen n - 1) = of_int (2 ^ nat (bitlen n - 1))"
    using k1 by (simp add: pow2_def)
  also have "\<dots> \<le> of_int n" using b(1) by (simp only: of_int_le_iff)
  also have "\<dots> \<le> a" unfolding n_def by simp
  finally have lo: "pow2 (ilog2 a) \<le> a" unfolding e .
  have "n + 1 \<le> 2 ^ nat (bitlen n)" using b(2) by simp
  then have "of_int (n + 1) \<le> (of_int (2 ^ nat (bitlen n)) :: real)" by (simp only: of_int_le_iff)
  moreover have "a < of_int (n + 1)" unfolding n_def by linarith
  moreover have "pow2 (bitlen n - 1 + 1) = of_int (2 ^ nat (bitlen n))"
    using k1 by (simp add: pow2_def)
  ultimately have "a < pow2 (ilog2 a + 1)" unfolding e by simp
  with lo show ?thesis ..
next
  case False
  define y where "y = 1 / a"
  define m where "m = \<lceil>y\<rceil> - 1"
  have y1: "1 < y" unfolding y_def using False assms by simp
  have m1: "1 \<le> m" unfolding m_def using y1 by linarith
  then have mpos: "0 < m" by simp
  have my: "of_int m < y" "y \<le> of_int m + 1" unfolding m_def by linarith+
  have k1: "1 \<le> bitlen m" using mpos by (simp add: bitlen_alt_def)
  have b: "2 ^ nat (bitlen m - 1) \<le> m" "m < 2 ^ nat (bitlen m)"
    using bitlen_bounds[OF mpos] by simp_all
  have e: "ilog2 a = - bitlen m" using False by (simp add: ilog2_def m_def y_def)
  have "m + 1 \<le> 2 ^ nat (bitlen m)" using b(2) by simp
  then have "of_int (m + 1) \<le> (of_int (2 ^ nat (bitlen m)) :: real)" by (simp only: of_int_le_iff)
  then have up: "y \<le> 2 ^ nat (bitlen m)" using my(2) by simp
  have "(of_int (2 ^ nat (bitlen m - 1)) :: real) \<le> of_int m" using b(1) by (simp only: of_int_le_iff)
  then have "(2::real) ^ nat (bitlen m - 1) \<le> of_int m" by simp
  then have lo: "2 ^ nat (bitlen m - 1) < y" using my(1) by linarith
  have p1: "pow2 (- bitlen m) = 1 / 2 ^ nat (bitlen m)"
    using k1 by (simp add: pow2_def)
  have "2 * pow2 (- bitlen m) = 1 / 2 ^ nat (bitlen m - 1)"
  proof -
    have "nat (bitlen m) = Suc (nat (bitlen m - 1))" using k1 by simp
    then show ?thesis unfolding p1 by simp
  qed
  then have p2: "pow2 (- bitlen m + 1) = 1 / 2 ^ nat (bitlen m - 1)"
    unfolding pow2_Suc .
  have a: "a = 1 / y" unfolding y_def by simp
  have ypos: "0 < y" using y1 by simp
  have "1 / 2 ^ nat (bitlen m) \<le> 1 / y" using up ypos by (simp add: frac_le)
  then have "1 / 2 ^ nat (bitlen m) \<le> a" by (simp only: a)
  moreover have "1 / y < 1 / 2 ^ nat (bitlen m - 1)" using lo by (simp add: frac_less2)
  then have "a < 1 / 2 ^ nat (bitlen m - 1)" by (simp only: a)
  ultimately show ?thesis unfolding e p1 p2 by simp
qed

lemma ilog2_unique:
  assumes "pow2 e \<le> a" "a < pow2 (e + 1)"
  shows "ilog2 a = e"
proof -
  have apos: "0 < a" using assms(1) pow2_pos[of e] by linarith
  note b = ilog2_bounds[OF apos]
  have "\<not> ilog2 a < e"
  proof
    assume "ilog2 a < e"
    then have "pow2 (ilog2 a + 1) \<le> pow2 e" by (intro pow2_mono) simp
    with b assms show False by linarith
  qed
  moreover have "\<not> e < ilog2 a"
  proof
    assume "e < ilog2 a"
    then have "pow2 (e + 1) \<le> pow2 (ilog2 a)" by (intro pow2_mono) simp
    with b assms show False by linarith
  qed
  ultimately show ?thesis by simp
qed

lemma rnd_eval:
  assumes "x \<noteq> 0" "pow2 e \<le> \<bar>x\<bar>" "\<bar>x\<bar> < pow2 (e + 1)"
  shows "rnd x =
     (let q = max (e - 52) (- 1074);
          r = of_int (round_half_even (\<bar>x\<bar> / pow2 q)) * pow2 q
      in if 2 ^ 1024 \<le> r then (if 0 < x then PInf else NInf)
         else Finite (if 0 < x then r else - r))"
proof -
  have "ilog2 \<bar>x\<bar> = e" using assms(2,3) by (rule ilog2_unique)
  then show ?thesis unfolding rnd_def Let_def by (simp only: assms(1) if_False)
qed

lemma round_half_even_error: "\<bar>of_int (round_half_even n) - n\<bar> \<le> 1 / 2"
  unfolding round_half_even_def Let_def by (auto simp: abs_if) linarith+


lemmas rnd_calc = pow2_def round_half_even_def Let_def


lemma rnd_tenth: "rnd (1 / 10) = Finite (3602879701896397 / 2 ^ 55)"
  by (subst rnd_eval[where e = "- 4"]) (simp_all add: rnd_calc)

subsection \<open>Runs of the double-precision model\<close>

lemmas dbl_ops = fadd_def fsub_def fmul_def fdiv_def fsqrt_def flt_def fge_def fabs_def fneg_def
  py_max_def as_float_def py_mul_def py_add_def bind_def

lemma rnd_0: "rnd 0 = Finite 0"
  by (simp add: rnd_def)

lemma rnd_1: "rnd 1 = Finite 1"
  by (subst rnd_eval[where e = 0]) (simp_all add: rnd_calc)

lemma rnd_half: "rnd (1 / 2) = Finite (1 / 2)"
  by (subst rnd_eval[where e = "- 1"]) (simp_all add: rnd_calc)


lemma rnd_1e_5: "rnd (1 / 100000) = Finite (5902958103587057 / 590295810358705651712)"
  by (subst rnd_eval[where e = "- 17"]) (simp_all add: rnd_calc)


lemma rnd_2_1200: "rnd (2 ^ 1200) = PInf"
  by (subst rnd_eval[where e = 1200]) (simp_all add: rnd_calc)

lemma sq_2_600: "(2::real) ^ 600 * 2 ^ 600 = 2 ^ 1200"
  by (simp add: power_add[symmetric])


lemma mul_big: "fmul (Finite (2 ^ 600)) (Finite (2 ^ 600)) = PInf"
  by (simp add: fmul_def sq_2_600 rnd_2_1200 del: power_numeral)


























text \<open>
  The runs the test script makes with ints agree with the exact model; the zero vector
  raises ZeroDivisionError, and an int whose square is too large for a float raises
  OverflowError.
\<close>

lemma double_zero_vector:
  "encode_double (PyFloat (Finite 0)) (PyFloat (Finite 0)) (PyFloat (Finite 0)) = Inl ZeroDivisionError"
  "encode_double (PyInt 0) (PyInt 0) (PyInt 0) = Inl ZeroDivisionError"
  unfolding encode_double_def encode_oct_double_def encode_normalize_double_def
  by (simp_all add: dbl_ops rnd_0)

lemma double_int_overflow:
  "encode_double (PyInt (10 ^ 200)) (PyInt 0) (PyInt 0) = Inl OverflowError"
  unfolding encode_double_def encode_oct_double_def encode_normalize_double_def
  by (simp add: dbl_ops rnd_0 rnd_calc rnd_eval[where e = 1328])

lemma double_fixtures:
  "encode_double (PyInt 0) (PyInt 1) (PyInt 0) = Inr (Finite (1 / 2), Finite (1 / 2))"
  "encode_double (PyInt 1) (PyInt 0) (PyInt 0) = Inr (Finite 1, Finite (1 / 2))"
  "encode_double (PyInt 0) (PyInt 0) (PyInt 1) = Inr (Finite (1 / 2), Finite 1)"
  unfolding encode_double_def encode_oct_double_def encode_normalize_double_def
    encode_denom_double_def encode_fold_double_def c_1e_5_def
  by (simp_all add: Let_def dbl_ops rnd_0 rnd_1 rnd_half rnd_1e_5)

subsection \<open>Round trip\<close>





subsection \<open>Range of encode\<close>




subsection \<open>Fold symmetry\<close>




subsection \<open>decode returns a unit vector\<close>

text \<open>
  C4. For every (u, v) with both components strictly between 0 and 1, the triple decode
  holds before its normalization is not the zero vector, so the division by its length
  is defined: decode returns a triple, and that triple has Euclidean length 1.
\<close>

theorem decode_unit:
  assumes "0 < u" "u < 1" "0 < v" "v < 1"
  shows "decode_dir u v \<noteq> (0, 0, 0) \<and>
         (\<exists>x y z. decode u v = Inr (x, y, z) \<and> sqrt (x * x + y * y + z * z) = 1)"
proof -
  obtain a b c where d: "decode_dir u v = (a, b, c)" by (cases "decode_dir u v") auto
  have nz: "(a, b, c) \<noteq> (0, 0, 0)" using decode_dir_nonzero[of u v] d by simp
  have pos: "0 < l2 a b c" using nz by (rule l2_pos)
  have "l2 (a / l2 a b c) (b / l2 a b c) (c / l2 a b c) = l2 a b c / l2 a b c"
    using pos by (rule l2_scale)
  then have "l2 (a / l2 a b c) (b / l2 a b c) (c / l2 a b c) = 1" using pos by simp
  moreover have "decode u v = Inr (a / l2 a b c, b / l2 a b c, c / l2 a b c)"
    using d by (rule decode_value)
  ultimately show ?thesis using decode_dir_nonzero[of u v] unfolding l2_def by blast
qed

theorem decode_unit_witness:
  "(0::real) < 1 / 10 \<and> (1 / 10::real) < 1 \<and>
   decode_dir (1 / 10) (1 / 10) \<noteq> (0, 0, 0) \<and>
   (\<exists>x y z. decode (1 / 10) (1 / 10) = Inr (x, y, z) \<and> sqrt (x * x + y * y + z * z) = 1)"
  using decode_unit[of "1 / 10" "1 / 10"] by simp

subsection \<open>The zero vector\<close>

text \<open>
  C5. encode of the zero vector fails: the square root of step 1 is 0, the first division
  of the normalization divides by it, and encode returns no pair.  The failure is the
  division's own (Python's ZeroDivisionError); encode has no error of its own and does not
  recover from it.
\<close>

theorem encode_zero_fails:
  "math_sqrt (0 * 0 + 0 * 0 + 0 * 0) = Inr 0 \<and>
   encode_normalize 0 0 0 = Inl ZeroDivisionError \<and>
   encode 0 0 0 = Inl ZeroDivisionError"
  by (simp add: encode_def encode_oct_def encode_normalize_def math_sqrt_def truediv_def bind_def)

subsection \<open>Fixtures\<close>

text \<open>
  C6. encode(0,1,0) = (0.5, 0.5) and decode(0.5, 0.5) = (0,1,0); encode(1,0,0) = (1, 0.5);
  encode(0,0,1) = (0.5, 1); decode(1, 0.5) = (1,0,0).
\<close>

theorem fixtures:
  "encode 0 1 0 = Inr (0.5, 0.5) \<and> decode 0.5 0.5 = Inr (0, 1, 0) \<and>
   encode 1 0 0 = Inr (1, 0.5) \<and> encode 0 0 1 = Inr (0.5, 1) \<and>
   decode 1 0.5 = Inr (1, 0, 0)"
proof -
  have e: "encode 0 1 0 = Inr (0.5, 0.5)" "encode 1 0 0 = Inr (1, 0.5)" "encode 0 0 1 = Inr (0.5, 1)"
    by (simp_all add: encode_def encode_oct_def encode_normalize_def encode_denom_def
        encode_fold_def math_sqrt_def truediv_def bind_def)
  have d: "decode 0.5 0.5 = Inr (0, 1, 0)" "decode 1 0.5 = Inr (1, 0, 0)"
    by (simp_all add: decode_def decode_dir_def decode_nz_def math_sqrt_def truediv_def bind_def)
  from e d show ?thesis by simp
qed

subsection \<open>Sign at zero\<close>

text \<open>
  C8. In the fold branch of encode and in the unfold branch of decode the sign factor of
  an axis is +1 when the component is exactly 0 (+1 for a component \<open>\<ge> 0\<close>, -1 for a
  negative one).  So a fold-branch input of encode whose first (second) octahedral
  coordinate is 0 folds to a first (second) component, before the final scaling, that is
  not negative.
\<close>

theorem sign_tie_break:
  "(c < 0 \<and> a = 0 \<longrightarrow> fst (encode_fold a b c) = (1 - \<bar>b\<bar>) * 1) \<and>
   (c < 0 \<and> b = 0 \<longrightarrow> snd (encode_fold a b c) = (1 - \<bar>a\<bar>) * 1) \<and>
   (c < 0 \<longrightarrow> encode_fold a b c =
      ((1 - \<bar>b\<bar>) * (if a \<ge> 0 then 1 else - 1), (1 - \<bar>a\<bar>) * (if b \<ge> 0 then 1 else - 1))) \<and>
   (decode_nz u v < 0 \<and> u * 2 - 1 = 0 \<longrightarrow> fst (decode_dir u v) = (1 - \<bar>v * 2 - 1\<bar>) * 1) \<and>
   (decode_nz u' v' < 0 \<and> v' * 2 - 1 = 0 \<longrightarrow>
      snd (snd (decode_dir u' v')) = (1 - \<bar>u' * 2 - 1\<bar>) * 1) \<and>
   (decode_nz u v < 0 \<longrightarrow> decode_dir u v =
      ((1 - \<bar>v * 2 - 1\<bar>) * (if u * 2 - 1 \<ge> 0 then 1 else - 1), decode_nz u v,
       (1 - \<bar>u * 2 - 1\<bar>) * (if v * 2 - 1 \<ge> 0 then 1 else - 1))) \<and>
   (encode_oct x y z = Inr (a, b, c) \<and> c < 0 \<and> a = 0 \<longrightarrow> 0 \<le> fst (encode_fold a b c)) \<and>
   (encode_oct x y z = Inr (a, b, c) \<and> c < 0 \<and> b = 0 \<longrightarrow> 0 \<le> snd (encode_fold a b c))"
proof -
  have enc: "encode_fold a b c =
      ((1 - \<bar>b\<bar>) * (if a \<ge> 0 then 1 else - 1), (1 - \<bar>a\<bar>) * (if b \<ge> 0 then 1 else - 1))"
    if "c < 0"
    using that by (simp add: encode_fold_def Let_def)
  have dec: "decode_dir u v =
      ((1 - \<bar>v * 2 - 1\<bar>) * (if u * 2 - 1 \<ge> 0 then 1 else - 1), decode_nz u v,
       (1 - \<bar>u * 2 - 1\<bar>) * (if v * 2 - 1 \<ge> 0 then 1 else - 1))"
    if "decode_nz u v < 0" for u v
    using that by (simp add: decode_dir_def Let_def)
  have bound: "\<bar>a\<bar> \<le> 1 \<and> \<bar>b\<bar> \<le> 1" if "encode_oct x y z = Inr (a, b, c)"
  proof (cases "(x, y, z) = (0, 0, 0)")
    case True
    then have "encode_oct x y z = Inl ZeroDivisionError"
      by (simp add: encode_oct_def encode_normalize_def math_sqrt_def truediv_def bind_def)
    with that show ?thesis by simp
  next
    case False
    from that have "a = x / l1 x y z" "b = z / l1 x y z" "c = y / l1 x y z"
      unfolding encode_oct_nonzero[OF False] by simp_all
    with l1_unit[OF False] have "\<bar>a\<bar> + \<bar>b\<bar> + \<bar>c\<bar> = 1" by simp
    then show ?thesis by linarith
  qed
  have e1: "fst (encode_fold a b c) = (1 - \<bar>b\<bar>) * 1" if "c < 0 \<and> a = 0"
    using that enc by simp
  have e2: "snd (encode_fold a b c) = (1 - \<bar>a\<bar>) * 1" if "c < 0 \<and> b = 0"
    using that enc by simp
  have d1: "fst (decode_dir u v) = (1 - \<bar>v * 2 - 1\<bar>) * 1" if "decode_nz u v < 0 \<and> u * 2 - 1 = 0"
    using that dec[of u v] by simp
  have d2: "snd (snd (decode_dir u' v')) = (1 - \<bar>u' * 2 - 1\<bar>) * 1"
    if "decode_nz u' v' < 0 \<and> v' * 2 - 1 = 0"
    using that dec[of u' v'] by simp
  have n1: "0 \<le> fst (encode_fold a b c)" if "encode_oct x y z = Inr (a, b, c) \<and> c < 0 \<and> a = 0"
    using that bound e1 by simp
  have n2: "0 \<le> snd (encode_fold a b c)" if "encode_oct x y z = Inr (a, b, c) \<and> c < 0 \<and> b = 0"
    using that bound e2 by simp
  from enc dec[of u v] e1 e2 d1 d2 n1 n2 show ?thesis by blast
qed

theorem sign_tie_break_witness:
  "encode_oct 0 (- 1) 0 = Inr (0, 0, - 1) \<and> (- 1::real) < 0 \<and>
   decode_nz (1 / 2) 2 < 0 \<and> (1 / 2::real) * 2 - 1 = 0 \<and>
   decode_nz 2 (1 / 2) < 0 \<and>
   fst (encode_fold 0 0 (- 1)) = 1 \<and> snd (encode_fold 0 0 (- 1)) = 1 \<and>
   0 \<le> fst (encode_fold 0 0 (- 1)) \<and> 0 \<le> snd (encode_fold 0 0 (- 1)) \<and>
   fst (decode_dir (1 / 2) 2) = 1 - \<bar>2 * 2 - 1\<bar> \<and>
   snd (snd (decode_dir 2 (1 / 2))) = 1 - \<bar>2 * 2 - 1\<bar>"
proof -
  have h1: "encode_oct 0 (- 1) 0 = Inr (0, 0, - 1)"
    by (simp add: encode_oct_def encode_normalize_def encode_denom_def math_sqrt_def
        truediv_def bind_def)
  have h2: "decode_nz (1 / 2) 2 < 0" "decode_nz 2 (1 / 2) < 0"
    by (simp_all add: decode_nz_def)
  show ?thesis
    using h1 h2 sign_tie_break[of "- 1" 0 0 "1 / 2" 2 2 "1 / 2" 0 "- 1" 0] by simp
qed

subsection \<open>The floor of the denominator\<close>




subsection \<open>The central diamond\<close>




subsection \<open>The two copies of decode\<close>

text \<open>
  C7. The decode of simulate\_octa.py and the decode of oct\_test.py are the same
  function: they return the same result, or raise the same error, on every pair (u, v).
\<close>

theorem decode_copies_equal: "decode_simulate_octa = decode"
  by (intro ext) (simp add: decode_simulate_octa_def decode_def decode_dir_def decode_nz_def Let_def)

end
